theory Spec2Isabelle
  imports Main "HOL-Library.Word"
begin

section \<open>The SCIFIO image IO bridge (itkSCIFIOImageIO.cxx)\<close>

text \<open>
  A shallow embedding of the parts of \<^verbatim>\<open>src/itkSCIFIOImageIO.cxx\<close> that drive the
  worker process and decode its replies. The source has two builds, chosen by
  \<^verbatim>\<open>#ifdef WIN32\<close>. Where they differ in what is modelled (the line ends of a
  reply, the making of the pipe) both are embedded: the functions that handle line
  ends take the platform as an argument, and CreateJavaProcess has a definition
  for each build.
\<close>

subsection \<open>Characters and \<^verbatim>\<open>std::string\<close> operations\<close>

text \<open>
  \<^verbatim>\<open>std::string::find\<close> returns the position of the first match at or after
  \<^verbatim>\<open>pos\<close>, or \<^verbatim>\<open>npos\<close> (the largest \<^verbatim>\<open>size_t\<close>). The model returns
  \<open>None\<close> for \<^verbatim>\<open>npos\<close>; a string is always shorter than \<^verbatim>\<open>npos\<close>, so a found
  position never collides with it and index arithmetic on found positions does not
  wrap. Where the source does arithmetic on \<^verbatim>\<open>npos\<close> itself the wrap-around is
  written out at that place. \<^verbatim>\<open>substr(pos, n)\<close> throws for \<^verbatim>\<open>pos > size()\<close>;
  every call below has \<^verbatim>\<open>pos \<le> size()\<close>, where it returns at most \<^verbatim>\<open>n\<close>
  characters from \<^verbatim>\<open>pos\<close>.
\<close>


abbreviation bs :: char where "bs \<equiv> CHR 0x5C"
abbreviation nl :: char where "nl \<equiv> CHR 0x0A"
abbreviation tab :: char where "tab \<equiv> CHR 0x09"

primrec index_of :: "char \<Rightarrow> string \<Rightarrow> nat option" where
  "index_of c [] = None"
| "index_of c (x # xs) = (if x = c then Some 0 else map_option Suc (index_of c xs))"

definition str_find :: "string \<Rightarrow> char \<Rightarrow> nat \<Rightarrow> nat option" where
  "str_find s c pos = map_option (\<lambda>i. pos + i) (index_of c (drop pos s))"

definition substr :: "string \<Rightarrow> nat \<Rightarrow> nat \<Rightarrow> string" where
  "substr s pos n = take n (drop pos s)"

lemma str_find_ge: "str_find s c pos = Some q \<Longrightarrow> pos \<le> q"
  by (auto simp: str_find_def)


subsection \<open>Unescaping a metadata value (ReadImageInformation, lines 497-528)\<close>

text \<open>
  \<^verbatim>\<open>
  while( lp0 < value.size() ) {
    lp1 = value.find( "\\", lp0 );
    if( lp1 == std::string::npos ) {
      tmp += value.substr( lp0, value.size()-lp0 );  lp0 = value.size();
    } else {
      tmp += value.substr( lp0, lp1-lp0 );
      if( lp1 < value.size() - 1 ) {
        if( value[lp1+1] == '\\' )     tmp += '\\';
        else if( value[lp1+1] == 'n' ) tmp += '\n';
      }
      lp0 = lp1 + 2;
    }
  }
  \<close>
\<close>

function unescape_loop :: "string \<Rightarrow> nat \<Rightarrow> string \<Rightarrow> string" where
  "unescape_loop val lp0 tmp =
     (if lp0 < length val then
        (case str_find val bs lp0 of
           None \<Rightarrow>
             unescape_loop val (length val) (tmp @ substr val lp0 (length val - lp0))
         | Some lp1 \<Rightarrow>
             unescape_loop val (lp1 + 2)
               (tmp @ substr val lp0 (lp1 - lp0) @
                 (if lp1 < length val - 1 then
                    (if val ! (lp1 + 1) = bs then [bs]
                     else if val ! (lp1 + 1) = CHR ''n'' then [nl]
                     else [])
                  else [])))
      else tmp)"
  by pat_completeness auto
termination
  by (relation "measure (\<lambda>(val, lp0, tmp). length val - lp0)")
     (auto dest: str_find_ge)

declare unescape_loop.simps [simp del]

definition unescape :: "string \<Rightarrow> string" where
  "unescape val = unescape_loop val 0 []"

text \<open>
  The unescape rule as the specification words it, read left to right: a backslash
  and the character after it form one escape; backslash-backslash is a backslash,
  backslash-n a linefeed, a backslash before any other character drops both;
  every other character is copied. A backslash that ends the value has no partner
  and is dropped.
\<close>

fun unescape_spec :: "string \<Rightarrow> string" where
  "unescape_spec [] = []"
| "unescape_spec [c] = (if c = bs then [] else [c])"
| "unescape_spec (c # d # rest) =
     (if c = bs then
        (if d = bs then bs # unescape_spec rest
         else if d = CHR ''n'' then nl # unescape_spec rest
         else unescape_spec rest)
      else c # unescape_spec (d # rest))"

text \<open>
  The number of backslashes that end a string. In a run of backslashes the first
  one always opens an escape, so the run pairs up from its left end: a backslash
  appended after an even run has no partner, one appended after an odd run is the
  second half of a backslash-backslash escape.
\<close>

definition trailing_backslashes :: "string \<Rightarrow> nat" where
  "trailing_backslashes v = length (takeWhile (\<lambda>c. c = bs) (rev v))"

subsection \<open>The two platforms\<close>

text \<open>
  The source branches on \<^verbatim>\<open>#ifdef WIN32\<close> wherever it handles line ends. The two
  builds differ in the string \<^verbatim>\<open>find\<close> looks for (\<^verbatim>\<open>"\n"\<close>, or \<^verbatim>\<open>"\r\n"\<close> on
  WIN32), in the step over it (\<^verbatim>\<open>p1+1\<close>, or \<^verbatim>\<open>p1+2\<close>), in the end of a reply
  (\<^verbatim>\<open>"\n\n"\<close>, or \<^verbatim>\<open>"\r\n\r\n"\<close>) and in the string the value line is compared
  with to recognise an empty line (\<^verbatim>\<open>""\<close>, or \<^verbatim>\<open>"\r"\<close>).
\<close>

datatype platform = POSIX | WIN32

abbreviation cr :: char where "cr \<equiv> CHR 0x0D"

fun terminator :: "platform \<Rightarrow> string" where
  "terminator POSIX = [nl]"
| "terminator WIN32 = [cr, nl]"

fun sentinel :: "platform \<Rightarrow> string" where
  "sentinel POSIX = [nl, nl]"
| "sentinel WIN32 = [cr, nl, cr, nl]"

fun empty_value_line :: "platform \<Rightarrow> string" where
  "empty_value_line POSIX = []"
| "empty_value_line WIN32 = [cr]"

text \<open>
  \<^verbatim>\<open>std::string::find\<close> with a string to look for: the position of its first
  occurrence at or after \<^verbatim>\<open>pos\<close>, \<open>None\<close> for \<^verbatim>\<open>npos\<close>.
\<close>

primrec index_of_str :: "string \<Rightarrow> string \<Rightarrow> nat option" where
  "index_of_str t [] = (if t = [] then Some 0 else None)"
| "index_of_str t (x # xs) =
     (if take (length t) (x # xs) = t then Some 0 else map_option Suc (index_of_str t xs))"

definition str_find_str :: "string \<Rightarrow> string \<Rightarrow> nat \<Rightarrow> nat option" where
  "str_find_str s t pos = map_option (\<lambda>i. pos + i) (index_of_str t (drop pos s))"

subsection \<open>Filling the metadata dictionary (ReadImageInformation, lines 423-540)\<close>

text \<open>
  The dictionary maps a key to the string stored for it: \<^verbatim>\<open>HasKey\<close> asks whether a
  key is present and \<^verbatim>\<open>EncapsulateMetaData\<close> stores a value under a key. It is the
  dictionary of the instance (\<^verbatim>\<open>this->GetMetaDataDictionary()\<close>), which the function
  does not clear: what an earlier call stored is still there.
\<close>

type_synonym MetaDataDictionary = "string \<rightharpoonup> string"

definition HasKey :: "MetaDataDictionary \<Rightarrow> string \<Rightarrow> bool" where
  "HasKey dict key = (dict key \<noteq> None)"

definition EncapsulateMetaData ::
    "MetaDataDictionary \<Rightarrow> string \<Rightarrow> string \<Rightarrow> MetaDataDictionary" where
  "EncapsulateMetaData dict key v = dict(key \<mapsto> v)"

text \<open>
  The two expressions the loop computes from the result \<^verbatim>\<open>p1\<close> of \<^verbatim>\<open>find\<close>.
  \<^verbatim>\<open>imgInfo.substr( p0, p1-p0 )\<close>: when \<^verbatim>\<open>p1\<close> is \<^verbatim>\<open>npos\<close> the count
  \<^verbatim>\<open>npos - p0\<close> is at least the rest of the string, which \<^verbatim>\<open>substr\<close> then returns.
  \<^verbatim>\<open>p0 = p1+1\<close> (\<^verbatim>\<open>p0 = p1+2\<close> on WIN32): when \<^verbatim>\<open>p1\<close> is \<^verbatim>\<open>npos\<close> the unsigned
  sum wraps around to 0 (to 1 on WIN32).
\<close>

definition line_at :: "string \<Rightarrow> nat \<Rightarrow> nat option \<Rightarrow> string" where
  "line_at imgInfo p0 p1 =
     (case p1 of
        None \<Rightarrow> substr imgInfo p0 (length imgInfo - p0)
      | Some q \<Rightarrow> substr imgInfo p0 (q - p0))"

fun next_line :: "platform \<Rightarrow> nat option \<Rightarrow> nat" where
  "next_line POSIX p1 = (case p1 of None \<Rightarrow> 0 | Some q \<Rightarrow> q + 1)"
| "next_line WIN32 p1 = (case p1 of None \<Rightarrow> 1 | Some q \<Rightarrow> q + 2)"

text \<open>
  One pass through the body of \<^verbatim>\<open>while( p0 < imgInfo.size() )\<close>, in either build:
  \<^verbatim>\<open>
    p1 = imgInfo.find("\n", p0);              // "\r\n" on WIN32
    line = imgInfo.substr( p0, p1-p0 );
    if( line == "" ) { p0 = p1+1; continue; }  // p1+2 on WIN32
    std::string key = line;
    p0 = p1+1;                                 // p1+2 on WIN32
    p1 = imgInfo.find("\n", p0);              // "\r\n" on WIN32
    line = imgInfo.substr( p0, p1-p0 );
    if( line == "" ) { p0 = p1+1; continue; }  // line == "\r" and p1+2 on WIN32
    std::string value = line;
    if( dict.HasKey(key) ) { /* ignored */ }
    else { /* unescape value into tmp */ EncapsulateMetaData< std::string >( dict, key, tmp ); }
    p0 = p1+1;                                 // p1+2 on WIN32
  \<close>
  The result is the next \<^verbatim>\<open>p0\<close> and the dictionary.
\<close>

definition parse_step ::
    "platform \<Rightarrow> string \<Rightarrow> nat \<Rightarrow> MetaDataDictionary \<Rightarrow> nat \<times> MetaDataDictionary" where
  "parse_step pf imgInfo p0 dict =
     (let p1 = str_find_str imgInfo (terminator pf) p0;
          line = line_at imgInfo p0 p1
      in if line = [] then (next_line pf p1, dict)
         else
           let key = line;
               p0' = next_line pf p1;
               p1' = str_find_str imgInfo (terminator pf) p0';
               line' = line_at imgInfo p0' p1'
           in if line' = empty_value_line pf then (next_line pf p1', dict)
              else
                let val = line'
                in (next_line pf p1',
                    if HasKey dict key then dict
                    else EncapsulateMetaData dict key (unescape val)))"

text \<open>
  The loop. After a \<^verbatim>\<open>find\<close> that fails the position wraps around and the loop
  starts over, so on a text without a final line end it need not end: the model
  counts iterations with fuel, and \<open>None\<close> means the fuel ran out.
\<close>

fun parse_loop ::
    "platform \<Rightarrow> nat \<Rightarrow> string \<Rightarrow> nat \<Rightarrow> MetaDataDictionary \<Rightarrow> MetaDataDictionary option" where
  "parse_loop pf 0 imgInfo p0 dict = (if p0 < length imgInfo then None else Some dict)"
| "parse_loop pf (Suc fuel) imgInfo p0 dict =
     (if p0 < length imgInfo then
        (case parse_step pf imgInfo p0 dict of
           (p0', dict') \<Rightarrow> parse_loop pf fuel imgInfo p0' dict')
      else Some dict)"






text \<open>
  A line of a text: followed by the line end, it has the first occurrence of the
  line end at its own end. A text that ends with an empty line: the empty text, a
  lone line end, or a text that ends with the doubled line end.
\<close>

definition first_at :: "string \<Rightarrow> string \<Rightarrow> bool" where
  "first_at t l = (index_of_str t (l @ t) = Some (length l))"


text \<open>
  The frame the specification gives as its example of a repeated key, with the
  line ends of the platform: SizeX, 10, an empty line, SizeX, 20, an empty line.
\<close>

definition example_frame :: "platform \<Rightarrow> string" where
  "example_frame pf =
     ''SizeX'' @ terminator pf @ ''10'' @ terminator pf @ terminator pf @
     ''SizeX'' @ terminator pf @ ''20'' @ terminator pf @ terminator pf"

text \<open>A key followed by an empty line, then the key B with the value 1.\<close>

definition empty_value_frame :: "platform \<Rightarrow> string" where
  "empty_value_frame pf =
     ''A'' @ terminator pf @ terminator pf @
     ''B'' @ terminator pf @ ''1'' @ terminator pf @ terminator pf"

subsection \<open>Errors\<close>

text \<open>
  Every \<^verbatim>\<open>itkExceptionMacro\<close> of the modelled functions is a value of this type.
  \<open>BufferOverrun\<close> stands for a \<^verbatim>\<open>memcpy\<close> past the end of the destination, which is
  undefined behaviour in the source.
\<close>

datatype error =
    ProcessExited int
  | ProcessError string
  | ProcessException string
  | ProcessExpired
  | ProcessKilled
  | ProcessDisowned
  | ProcessUnknownState
  | CreatePipeFailed
  | SetInheritedFailed
  | ExitedAbnormally string
  | ConversionError string
  | BufferOverrun

subsection \<open>The worker process (CreateJavaProcess, DestroyJavaProcess)\<close>

text \<open>
  The states \<^verbatim>\<open>itksysProcess_GetState\<close> reports, and the library and system calls the
  two functions make. The instance keeps the process handle \<^verbatim>\<open>m_Process\<close> (\<open>None\<close> is
  \<^verbatim>\<open>NULL\<close>; a handle carries the state the library reports for it) and the write end
  \<^verbatim>\<open>m_Pipe[1]\<close> of the pipe; \<open>calls\<close> records the calls made so far, in order.
  \<open>Call_pipe\<close> is \<^verbatim>\<open>pipe\<close>, or \<^verbatim>\<open>CreatePipe\<close> on WIN32; \<open>Call_close\<close> is \<^verbatim>\<open>close\<close>, or
  \<^verbatim>\<open>CloseHandle\<close> on WIN32.
\<close>

datatype itksysProcess_State =
    State_Starting
  | State_Error
  | State_Exception
  | State_Executing
  | State_Exited
  | State_Expired
  | State_Killed
  | State_Disowned

datatype call =
    Call_pipe
  | Call_SetHandleInformation
  | Call_New
  | Call_SetCommand
  | Call_SetPipeNative
  | Call_Execute
  | Call_Kill
  | Call_WaitForExit
  | Call_Delete
  | Call_close

record SCIFIOImageIO =
  m_Process :: "itksysProcess_State option"
  m_Pipe1_open :: bool
  calls :: "call list"

text \<open>The instance as the constructor leaves it: \<^verbatim>\<open>m_Process = NULL\<close>, no pipe yet.\<close>

definition constructed :: SCIFIOImageIO where
  "constructed = \<lparr>m_Process = None, m_Pipe1_open = False, calls = []\<rparr>"

text \<open>
  \<^verbatim>\<open>
  if( m_Process == NULL ) return;
  if( GetState( m_Process ) == State_Executing ) { Kill( m_Process ); WaitForExit( m_Process, NULL ); }
  Delete( m_Process );  m_Process = NULL;
  close( m_Pipe[1] );
  \<close>
\<close>

definition DestroyJavaProcess :: "SCIFIOImageIO \<Rightarrow> SCIFIOImageIO" where
  "DestroyJavaProcess s =
     (case m_Process s of
        None \<Rightarrow> s
      | Some st \<Rightarrow>
          let s1 = (if st = State_Executing
                    then s\<lparr>m_Process := Some State_Killed,
                           calls := calls s @ [Call_Kill, Call_WaitForExit]\<rparr>
                    else s)
          in s1\<lparr>m_Process := None, m_Pipe1_open := False,
                 calls := calls s1 @ [Call_Delete, Call_close]\<rparr>)"

text \<open>
  What the system answers when the process is executed: the state the new process
  is in afterwards, and the exit value and messages the library would report.
\<close>

record spawn =
  spawn_state :: itksysProcess_State
  exit_value :: int
  error_string :: string
  exception_string :: string

text \<open>The \<^verbatim>\<open>switch( state )\<close> after \<^verbatim>\<open>itksysProcess_Execute\<close>: the exception thrown, if any.\<close>

definition state_error :: "spawn \<Rightarrow> error option" where
  "state_error env =
     (case spawn_state env of
        State_Exited \<Rightarrow> Some (ProcessExited (exit_value env))
      | State_Error \<Rightarrow> Some (ProcessError (error_string env))
      | State_Exception \<Rightarrow> Some (ProcessException (exception_string env))
      | State_Executing \<Rightarrow> None
      | State_Expired \<Rightarrow> Some ProcessExpired
      | State_Killed \<Rightarrow> Some ProcessKilled
      | State_Disowned \<Rightarrow> Some ProcessDisowned
      | State_Starting \<Rightarrow> Some ProcessUnknownState)"

text \<open>
  CreateJavaProcess returns at once when the handle is there and executing; a handle
  that is there and not executing is destroyed first. Then it opens the pipe, makes
  and executes the process, and throws according to the state. The result is the
  exception thrown, if any, and the instance as the call leaves it.
\<close>

definition CreateJavaProcess :: "spawn \<Rightarrow> SCIFIOImageIO \<Rightarrow> error option \<times> SCIFIOImageIO" where
  "CreateJavaProcess env s =
     (if m_Process s = Some State_Executing then (None, s)
      else
        let s1 = (if m_Process s \<noteq> None then DestroyJavaProcess s else s);
            s2 = s1\<lparr>m_Process := Some (spawn_state env), m_Pipe1_open := True,
                    calls := calls s1 @
                      [Call_pipe, Call_New, Call_SetCommand, Call_SetPipeNative, Call_Execute]\<rparr>
        in (state_error env, s2))"

text \<open>
  CreateJavaProcess in the WIN32 build. It differs in how the pipe is made:
  \<^verbatim>\<open>
  if( !CreatePipe( &(m_Pipe[0]), &(m_Pipe[1]), &saAttr, 0) )
    itkExceptionMacro(<<"createpipe() failed");
  if ( ! SetHandleInformation(m_Pipe[1], HANDLE_FLAG_INHERIT, 0) )
    itkExceptionMacro(<<"set inherited failed");
  \<close>
  The two booleans say whether the system lets \<^verbatim>\<open>CreatePipe\<close> and
  \<^verbatim>\<open>SetHandleInformation\<close> succeed. When the second fails the function throws with
  the pipe made and no process yet.
\<close>

definition CreateJavaProcess_WIN32 ::
    "bool \<Rightarrow> bool \<Rightarrow> spawn \<Rightarrow> SCIFIOImageIO \<Rightarrow> error option \<times> SCIFIOImageIO" where
  "CreateJavaProcess_WIN32 CreatePipe_ok SetHandleInformation_ok env s =
     (if m_Process s = Some State_Executing then (None, s)
      else
        let s1 = (if m_Process s \<noteq> None then DestroyJavaProcess s else s)
        in if \<not> CreatePipe_ok
           then (Some CreatePipeFailed, s1\<lparr>calls := calls s1 @ [Call_pipe]\<rparr>)
           else if \<not> SetHandleInformation_ok
           then (Some SetInheritedFailed,
                 s1\<lparr>m_Pipe1_open := True,
                    calls := calls s1 @ [Call_pipe, Call_SetHandleInformation]\<rparr>)
           else (state_error env,
                 s1\<lparr>m_Process := Some (spawn_state env), m_Pipe1_open := True,
                    calls := calls s1 @
                      [Call_pipe, Call_SetHandleInformation,
                       Call_New, Call_SetCommand, Call_SetPipeNative, Call_Execute]\<rparr>))"

text \<open>
  The states an instance can be in, in the POSIX build: as constructed, after
  either function, and after the worker changed its state by itself (it exits, is
  killed, fails).
\<close>

inductive reachable :: "SCIFIOImageIO \<Rightarrow> bool" where
  reachable_constructed: "reachable constructed"
| reachable_Create: "reachable s \<Longrightarrow> reachable (snd (CreateJavaProcess env s))"
| reachable_Destroy: "reachable s \<Longrightarrow> reachable (DestroyJavaProcess s)"
| reachable_world: "reachable s \<Longrightarrow> m_Process s = Some st \<Longrightarrow>
                    reachable (s\<lparr>m_Process := Some st'\<rparr>)"

text \<open>Two answers of the system: the worker runs, and the worker has exited with value 1.\<close>

definition running :: spawn where
  "running = \<lparr>spawn_state = State_Executing, exit_value = 0, error_string = [],
              exception_string = []\<rparr>"

definition exited :: spawn where
  "exited = \<lparr>spawn_state = State_Exited, exit_value = 1, error_string = [],
             exception_string = []\<rparr>"

subsection \<open>Reading the pixels (Read, lines 675-704)\<close>

text \<open>
  What one call of \<^verbatim>\<open>itksysProcess_WaitForData\<close> returns: data of the worker's standard
  output, data of its standard error, or another value (no more data, a timeout).
  The data are \<^verbatim>\<open>char\<close>s, as the destination buffer is. The list of events is what
  the successive calls return; when it is used up the worker has no more data,
  which is the value \<open>Pipe_None\<close>.
\<close>

type_synonym byte = char

datatype pipe_event =
    Pipe_STDOUT "byte list"
  | Pipe_STDERR string
  | Pipe_None
  | Pipe_Timeout

text \<open>\<^verbatim>\<open>memcpy( data + pos, pipedata, pipedatalength )\<close> inside the destination.\<close>

definition memcpy :: "byte list \<Rightarrow> nat \<Rightarrow> byte list \<Rightarrow> byte list" where
  "memcpy data pos chunk = take pos data @ chunk @ drop (pos + length chunk) data"

text \<open>
  \<^verbatim>\<open>size_t byteCount = this->GetPixelSize() * region.GetNumberOfPixels();\<close> in 64-bit
  unsigned arithmetic; the number of pixels is the product of the region's sizes.
\<close>

definition GetNumberOfPixels :: "nat list \<Rightarrow> nat" where
  "GetNumberOfPixels sizes = prod_list sizes"

definition Read_byteCount :: "nat \<Rightarrow> nat list \<Rightarrow> nat" where
  "Read_byteCount pixelSize sizes = (pixelSize * GetNumberOfPixels sizes) mod 2 ^ 64"

text \<open>
  \<^verbatim>\<open>
  while( pos < byteCount ) {
    int retcode = itksysProcess_WaitForData( m_Process, &pipedata, &pipedatalength, NULL );
    if( retcode == itksysProcess_Pipe_STDOUT ) {
      memcpy( data + pos, pipedata, pipedatalength );  pos += pipedatalength;
    } else if( retcode == itksysProcess_Pipe_STDERR ) {
      errorMessage += std::string( pipedata, pipedatalength );
    } else {
      DestroyJavaProcess();  itkExceptionMacro(<<"... exited abnormally. " << errorMessage);
    }
  }
  \<close>
  The loop returns the destination buffer, or the exception.
\<close>

fun Read_loop ::
    "nat \<Rightarrow> pipe_event list \<Rightarrow> byte list \<Rightarrow> nat \<Rightarrow> string \<Rightarrow> error + byte list" where
  "Read_loop byteCount [] data pos errorMessage =
     (if pos < byteCount then Inl (ExitedAbnormally errorMessage) else Inr data)"
| "Read_loop byteCount (e # evs) data pos errorMessage =
     (if pos < byteCount then
        (case e of
           Pipe_STDOUT chunk \<Rightarrow>
             if pos + length chunk \<le> length data
             then Read_loop byteCount evs (memcpy data pos chunk) (pos + length chunk) errorMessage
             else Inl BufferOverrun
         | Pipe_STDERR msg \<Rightarrow> Read_loop byteCount evs data pos (errorMessage @ msg)
         | Pipe_None \<Rightarrow> Inl (ExitedAbnormally errorMessage)
         | Pipe_Timeout \<Rightarrow> Inl (ExitedAbnormally errorMessage))
      else Inr data)"

text \<open>
  Read on the instance: CreateJavaProcess first (the \<^verbatim>\<open>read\<close> command line is then
  written to the pipe, which the model does not keep), then the loop. When the loop
  throws because the worker exited abnormally, DestroyJavaProcess has run first.
\<close>

definition Read ::
    "spawn \<Rightarrow> nat \<Rightarrow> pipe_event list \<Rightarrow> byte list \<Rightarrow> SCIFIOImageIO \<Rightarrow>
     (error + byte list) \<times> SCIFIOImageIO" where
  "Read env byteCount evs data s =
     (case CreateJavaProcess env s of
        (Some e, s') \<Rightarrow> (Inl e, s')
      | (None, s') \<Rightarrow>
          (case Read_loop byteCount evs data 0 [] of
             Inl (ExitedAbnormally m) \<Rightarrow> (Inl (ExitedAbnormally m), DestroyJavaProcess s')
           | r \<Rightarrow> (r, s')))"

text \<open>The bytes a list of events carries on standard output, in order.\<close>

fun stdout_bytes :: "pipe_event list \<Rightarrow> byte list" where
  "stdout_bytes [] = []"
| "stdout_bytes (Pipe_STDOUT chunk # evs) = chunk @ stdout_bytes evs"
| "stdout_bytes (e # evs) = stdout_bytes evs"

fun is_data :: "pipe_event \<Rightarrow> bool" where
  "is_data (Pipe_STDOUT chunk) = True"
| "is_data (Pipe_STDERR msg) = True"
| "is_data e = False"

subsection \<open>Reading a text reply (ReadImageInformation, lines 382-416)\<close>

text \<open>
  \<^verbatim>\<open>
  while( keepReading ) {
    int retcode = itksysProcess_WaitForData( m_Process, &pipedata, &pipedatalength, NULL );
    if( retcode == itksysProcess_Pipe_STDOUT ) {
      imgInfo += std::string( pipedata, pipedatalength );
      if( imgInfo.size() >= 2 && imgInfo.substr( imgInfo.size()-2, 2 ) == "\n\n" )
        keepReading = false;    // size 4 and "\r\n\r\n" on WIN32
    } else if( retcode == itksysProcess_Pipe_STDERR ) {
      errorMessage += std::string( pipedata, pipedatalength );
    } else { DestroyJavaProcess(); itkExceptionMacro(... << errorMessage); }
  }
  \<close>
  The loop returns the text of the reply, or the exception.
\<close>

fun reply_loop :: "platform \<Rightarrow> pipe_event list \<Rightarrow> string \<Rightarrow> string \<Rightarrow> error + string" where
  "reply_loop pf [] imgInfo errorMessage = Inl (ExitedAbnormally errorMessage)"
| "reply_loop pf (Pipe_STDOUT chunk # evs) imgInfo errorMessage =
     (if length (sentinel pf) \<le> length (imgInfo @ chunk) \<and>
         substr (imgInfo @ chunk) (length (imgInfo @ chunk) - length (sentinel pf))
           (length (sentinel pf)) = sentinel pf
      then Inr (imgInfo @ chunk)
      else reply_loop pf evs (imgInfo @ chunk) errorMessage)"
| "reply_loop pf (Pipe_STDERR msg # evs) imgInfo errorMessage =
     reply_loop pf evs imgInfo (errorMessage @ msg)"
| "reply_loop pf (e # evs) imgInfo errorMessage = Inl (ExitedAbnormally errorMessage)"

subsection \<open>Converting strings and numbers (valueOfString, toString, GetTypedMetaData)\<close>

text \<open>
  The conversions go through the C++ stream library, which is not part of the
  repository. Its formatted input is modelled as the C++11 standard describes it:
  an extraction first skips white space and fails, leaving the target untouched,
  when nothing follows; an integer is an optional sign and decimal digits, a
  conversion without digits stores 0 and fails, and a value out of the target's
  range stores the nearest bound and fails. An extraction returns whether it
  failed, the value stored (\<open>None\<close>: the target is untouched) and the characters left
  in the stream.
\<close>

definition isspace :: "char \<Rightarrow> bool" where
  "isspace c = (c \<in> set [CHR 0x20, tab, nl, CHR 0x0B, CHR 0x0C, CHR 0x0D])"

definition isdigit :: "char \<Rightarrow> bool" where
  "isdigit c = (c \<in> set ''0123456789'')"

definition digit_value :: "char \<Rightarrow> int" where
  "digit_value c = int (of_char c) - 48"

definition digits_value :: "string \<Rightarrow> int" where
  "digits_value ds = foldl (\<lambda>acc c. 10 * acc + digit_value c) 0 ds"

definition extract_integer :: "int \<Rightarrow> int \<Rightarrow> string \<Rightarrow> bool \<times> int option \<times> string" where
  "extract_integer lo hi s =
     (let s1 = dropWhile isspace s
      in if s1 = [] then (True, None, [])
         else
           let negative = (hd s1 = CHR ''-'');
               s2 = (if hd s1 = CHR ''-'' \<or> hd s1 = CHR ''+'' then tl s1 else s1);
               ds = takeWhile isdigit s2;
               rest = dropWhile isdigit s2;
               v = (if negative then - digits_value ds else digits_value ds)
           in if ds = [] then (True, Some 0, rest)
              else if v < lo then (True, Some lo, rest)
              else if hi < v then (True, Some hi, rest)
              else (False, Some v, rest))"

text \<open>
  \<^verbatim>\<open>
  template <typename ReturnType> ReturnType valueOfString( const std::string &s ) {
    ReturnType res;
    if( !(std::istringstream(s) >> res) )
      itkGenericExceptionMacro(<<"SCIFIOImageIO: error while converting: " << s );
    return res;
  }
  \<close>
  for the integer types \<^verbatim>\<open>int\<close> (32 bits) and \<^verbatim>\<open>short\<close> (16 bits).
\<close>

definition valueOfString_integer :: "int \<Rightarrow> int \<Rightarrow> string \<Rightarrow> error + int" where
  "valueOfString_integer lo hi s =
     (case extract_integer lo hi s of
        (False, Some v, rest) \<Rightarrow> Inr v
      | _ \<Rightarrow> Inl (ConversionError s))"

definition valueOfString_int :: "string \<Rightarrow> error + int" where
  "valueOfString_int = valueOfString_integer (- (2 ^ 31)) (2 ^ 31 - 1)"

definition valueOfString_short :: "string \<Rightarrow> error + int" where
  "valueOfString_short = valueOfString_integer (- (2 ^ 15)) (2 ^ 15 - 1)"

text \<open>
  Extracting a \<^verbatim>\<open>bool\<close>. Without \<^verbatim>\<open>boolalpha\<close> the input is read as a \<^verbatim>\<open>long\<close>
  (64 bits): 0 stores false, 1 stores true, any other value stores true and fails,
  and a failed conversion keeps its failure. With \<^verbatim>\<open>boolalpha\<close> the input is
  matched against the names \<^verbatim>\<open>true\<close> and \<^verbatim>\<open>false\<close>; without a match false is stored
  and the extraction fails.
\<close>

definition extract_bool :: "string \<Rightarrow> bool \<times> bool option \<times> string" where
  "extract_bool s =
     (case extract_integer (- (2 ^ 63)) (2 ^ 63 - 1) s of
        (failed, None, rest) \<Rightarrow> (True, None, rest)
      | (failed, Some v, rest) \<Rightarrow>
          if v = 0 then (failed, Some False, rest)
          else if v = 1 then (failed, Some True, rest)
          else (True, Some True, rest))"

definition extract_boolalpha :: "string \<Rightarrow> bool \<times> bool option \<times> string" where
  "extract_boolalpha s =
     (let s1 = dropWhile isspace s
      in if s1 = [] then (True, None, [])
         else if take 4 s1 = ''true'' then (False, Some True, drop 4 s1)
         else if take 5 s1 = ''false'' then (False, Some False, drop 5 s1)
         else (True, Some False, s1))"

text \<open>An extraction into a variable: the variable keeps its value when nothing is stored.\<close>

definition stored :: "'a \<Rightarrow> bool \<times> 'a option \<times> string \<Rightarrow> 'a" where
  "stored res r = (case fst (snd r) of None \<Rightarrow> res | Some v \<Rightarrow> v)"

definition failed :: "bool \<times> 'a option \<times> string \<Rightarrow> bool" where
  "failed r = fst r"

definition remaining :: "bool \<times> 'a option \<times> string \<Rightarrow> string" where
  "remaining r = snd (snd r)"

text \<open>
  \<^verbatim>\<open>
  template <> bool valueOfString <bool> ( const std::string &s ) {
    std::stringstream ss;  ss << s;
    bool res = false;
    ss >> res;
    if( ss.fail() ) { ss.clear();  ss >> std::boolalpha >> res; }
    return res;
  }
  \<close>
  The result type has room for the conversion error of the general template; this
  specialisation has no statement that throws.
\<close>

definition valueOfString_bool :: "string \<Rightarrow> error + bool" where
  "valueOfString_bool s =
     (let res = False;
          r1 = extract_bool s;
          res1 = stored res r1
      in if failed r1
         then (let r2 = extract_boolalpha (remaining r1);
                   res2 = stored res1 r2
               in Inr res2)
         else Inr res1)"

text \<open>
  \<^verbatim>\<open>toString\<close> of an integer: the decimal digits, after a minus sign when negative.
\<close>

definition digit_char :: "nat \<Rightarrow> char" where
  "digit_char d = ''0123456789'' ! d"

fun show_nat :: "nat \<Rightarrow> string" where
  "show_nat n =
     (if n < 10 then [digit_char n]
      else show_nat (n div 10) @ [digit_char (n mod 10)])"

declare show_nat.simps [simp del]

definition toString :: "int \<Rightarrow> string" where
  "toString v = (if v < 0 then CHR ''-'' # show_nat (nat (- v)) else show_nat (nat v))"

text \<open>
  \<^verbatim>\<open>GetTypedMetaData<T>( dict, key )\<close>: \<^verbatim>\<open>ExposeMetaData\<close> leaves the empty string when
  the key is missing, and the string is converted.
\<close>

definition ExposeMetaData :: "MetaDataDictionary \<Rightarrow> string \<Rightarrow> string" where
  "ExposeMetaData dict key = (case dict key of None \<Rightarrow> [] | Some v \<Rightarrow> v)"

definition GetTypedMetaData_bool :: "MetaDataDictionary \<Rightarrow> string \<Rightarrow> error + bool" where
  "GetTypedMetaData_bool dict key = valueOfString_bool (ExposeMetaData dict key)"

definition GetTypedMetaData_int :: "MetaDataDictionary \<Rightarrow> string \<Rightarrow> error + int" where
  "GetTypedMetaData_int dict key = valueOfString_int (ExposeMetaData dict key)"

definition GetTypedMetaData_short :: "MetaDataDictionary \<Rightarrow> string \<Rightarrow> error + int" where
  "GetTypedMetaData_short dict key = valueOfString_short (ExposeMetaData dict key)"

subsection \<open>The write command (Write, lines 775-927)\<close>

text \<open>
  The region to write: its dimension, and per axis the start index (a signed
  \<^verbatim>\<open>long\<close>) and the size, that is the extent (an \<^verbatim>\<open>unsigned long\<close>). Both lists have
  one entry per axis of the region.
\<close>

record ImageIORegion =
  ImageDimension :: nat
  Index :: "int list"
  Size :: "nat list"

definition zIndex :: nat where "zIndex = 2"
definition cIndex :: nat where "cIndex = 3"
definition tIndex :: nat where "tIndex = 4"

text \<open>
  \<^verbatim>\<open>
  int numPlanes = 1;
  for (int dim = 0; dim < 5; dim++) {
    if(dim < regionDim) {
      int index = region.GetIndex(dim);
      int size = region.GetSize(dim);
      command += toString(index);  command += "\t";
      command += toString(size);   command += "\t";
      if( dim == cIndex || dim == zIndex || dim == tIndex )
        numPlanes *= size - index;
    } else {
      command += toString(0);  command += "\t";
      command += toString(1);  command += "\t";
    }
  }
  \<close>
  \<^verbatim>\<open>index\<close>, \<^verbatim>\<open>size\<close> and \<^verbatim>\<open>numPlanes\<close> are 32-bit \<^verbatim>\<open>int\<close>s: the values of the region
  are cut to 32 bits, and the arithmetic wraps around. The loop runs over the axes
  given and carries the command and the number of planes.
\<close>

fun region_fields ::
    "ImageIORegion \<Rightarrow> nat list \<Rightarrow> string \<times> 32 word \<Rightarrow> string \<times> 32 word" where
  "region_fields region [] (command, numPlanes) = (command, numPlanes)"
| "region_fields region (dim # dims) (command, numPlanes) =
     (if dim < ImageDimension region then
        (let index = (word_of_int (Index region ! dim) :: 32 word);
             size = (word_of_int (int (Size region ! dim)) :: 32 word)
         in region_fields region dims
              (command @ toString (sint index) @ [tab] @ toString (sint size) @ [tab],
               if dim = cIndex \<or> dim = zIndex \<or> dim = tIndex
               then numPlanes * (size - index) else numPlanes))
      else
        region_fields region dims
          (command @ toString 0 @ [tab] @ toString 1 @ [tab], numPlanes))"

definition Write_numPlanes :: "ImageIORegion \<Rightarrow> int" where
  "Write_numPlanes region = sint (snd (region_fields region [0, 1, 2, 3, 4] ([], 1)))"

text \<open>
  The number of planes the specification names: the product of the region's extents
  on the axes after Y, an axis the region does not have counting 1.
\<close>

definition extent_product :: "ImageIORegion \<Rightarrow> nat" where
  "extent_product region = prod_list (drop 2 (take (ImageDimension region) (Size region)))"

text \<open>
  The lookup table (lines 870-925). For each entry the 8-bit branch appends red,
  green and blue, each followed by a tab; the other branch reads them as \<^verbatim>\<open>short\<close>
  and appends one more tab after the three:
  \<^verbatim>\<open>
  for(int i = 0; i < LUTLength; i++) {
    if(LUTBits == 8) {
      int rValue = GetTypedMetaData<int>(dict, "LUTR" + toString(i));
      command += toString(rValue);  command += "\t";
      ... gValue, bValue likewise ...
    } else {
      short rValue = GetTypedMetaData<short>(dict, "LUTR" + toString(i));
      command += toString(rValue);  command += "\t";
      ... gValue, bValue likewise ...
      scifioDebug(...);
      command += "\t";
    }
  }
  \<close>
\<close>

definition lut_value ::
    "MetaDataDictionary \<Rightarrow> int \<Rightarrow> string \<Rightarrow> nat \<Rightarrow> error + string" where
  "lut_value dict LUTBits channel i =
     (case (if LUTBits = 8 then GetTypedMetaData_int dict (channel @ toString (int i))
            else GetTypedMetaData_short dict (channel @ toString (int i))) of
        Inl e \<Rightarrow> Inl e
      | Inr v \<Rightarrow> Inr (toString v @ [tab]))"

definition lut_entry :: "MetaDataDictionary \<Rightarrow> int \<Rightarrow> nat \<Rightarrow> error + string" where
  "lut_entry dict LUTBits i =
     (case lut_value dict LUTBits ''LUTR'' i of
        Inl e \<Rightarrow> Inl e
      | Inr r \<Rightarrow>
          (case lut_value dict LUTBits ''LUTG'' i of
             Inl e \<Rightarrow> Inl e
           | Inr g \<Rightarrow>
               (case lut_value dict LUTBits ''LUTB'' i of
                  Inl e \<Rightarrow> Inl e
                | Inr b \<Rightarrow> Inr (r @ g @ b @ (if LUTBits = 8 then [] else [tab])))))"

fun lut_entries :: "MetaDataDictionary \<Rightarrow> int \<Rightarrow> nat list \<Rightarrow> string \<Rightarrow> error + string" where
  "lut_entries dict LUTBits [] command = Inr command"
| "lut_entries dict LUTBits (i # is) command =
     (case lut_entry dict LUTBits i of
        Inl e \<Rightarrow> Inl e
      | Inr entry \<Rightarrow> lut_entries dict LUTBits is (command @ entry))"

text \<open>
  The end of the command: the lookup-table flag, then bit depth, entry count and
  the entries when the flag is set, a single 0 otherwise, and the final linefeed.
\<close>

definition Write_lut :: "MetaDataDictionary \<Rightarrow> string \<Rightarrow> error + string" where
  "Write_lut dict command =
     (case GetTypedMetaData_bool dict ''UseLUT'' of
        Inl e \<Rightarrow> Inl e
      | Inr useLut \<Rightarrow>
          if useLut then
            (case GetTypedMetaData_int dict ''LUTBits'' of
               Inl e \<Rightarrow> Inl e
             | Inr LUTBits \<Rightarrow>
                 (case GetTypedMetaData_int dict ''LUTLength'' of
                    Inl e \<Rightarrow> Inl e
                  | Inr LUTLength \<Rightarrow>
                      (case lut_entries dict LUTBits [0..<nat LUTLength]
                              (command @ toString 1 @ [tab] @ toString LUTBits @ [tab] @
                               toString LUTLength @ [tab]) of
                         Inl e \<Rightarrow> Inl e
                       | Inr c \<Rightarrow> Inr (c @ [nl]))))
          else Inr (command @ toString 0 @ [tab] @ [nl]))"

text \<open>The fields of a command line: the pieces between tabs.\<close>

fun split_tabs :: "string \<Rightarrow> string list" where
  "split_tabs [] = [[]]"
| "split_tabs (c # cs) =
     (if c = tab then [] # split_tabs cs
      else (case split_tabs cs of [] \<Rightarrow> [[c]] | f # fs \<Rightarrow> (c # f) # fs))"

text \<open>
  Dictionaries with a lookup table of one entry (red 10, green 20, blue 30), at the
  bit depth given.
\<close>

definition lut_dict :: "string \<Rightarrow> MetaDataDictionary" where
  "lut_dict bits =
     [''UseLUT'' \<mapsto> ''1'', ''LUTBits'' \<mapsto> bits, ''LUTLength'' \<mapsto> ''1'',
      ''LUTR0'' \<mapsto> ''10'', ''LUTG0'' \<mapsto> ''20'', ''LUTB0'' \<mapsto> ''30'']"

text \<open>A three-dimensional region of 4 by 4 by 3 pixels that starts at plane 1.\<close>

definition offset_region :: ImageIORegion where
  "offset_region = \<lparr>ImageDimension = 3, Index = [0, 0, 1], Size = [4, 4, 3]\<rparr>"

section \<open>Properties\<close>

subsection \<open>Properties of unescaping\<close>

lemma index_of_None: "index_of c xs = None \<longleftrightarrow> c \<notin> set xs"
  by (induction xs) auto

lemma index_of_Some:
  "index_of c xs = Some i \<Longrightarrow> i < length xs \<and> xs ! i = c \<and> c \<notin> set (take i xs)"
  by (induction xs arbitrary: i) (auto split: if_splits)

lemma index_of_split:
  "index_of c xs = Some i \<Longrightarrow> xs = take i xs @ c # drop (Suc i) xs"
proof -
  assume a: "index_of c xs = Some i"
  from index_of_Some [OF a] have "i < length xs" and "xs ! i = c" by simp_all
  then show ?thesis using id_take_nth_drop [of i xs] by simp
qed

lemma unescape_spec_plain: "bs \<notin> set xs \<Longrightarrow> unescape_spec (xs @ ys) = xs @ unescape_spec ys"
proof (induction xs)
  case Nil
  then show ?case by simp
next
  case (Cons x xs)
  then show ?case by (cases "xs @ ys") auto
qed

lemma str_find_None: "str_find s c pos = None \<Longrightarrow> c \<notin> set (drop pos s)"
  by (simp add: str_find_def index_of_None)

lemma str_find_Some:
  assumes "str_find s c pos = Some q"
  shows "pos \<le> q" and "q < length s" and "s ! q = c"
    and "c \<notin> set (take (q - pos) (drop pos s))"
    and "drop pos s = take (q - pos) (drop pos s) @ c # drop (Suc q) s"
proof -
  from assms obtain i where i: "index_of c (drop pos s) = Some i" and q: "q = pos + i"
    by (auto simp: str_find_def)
  from index_of_Some [OF i] have b: "i < length (drop pos s)" and n: "drop pos s ! i = c"
    and t: "c \<notin> set (take i (drop pos s))" by simp_all
  show "pos \<le> q" using q by simp
  show "q < length s" using b q by simp
  show "s ! q = c" using n b q by simp
  show "c \<notin> set (take (q - pos) (drop pos s))" using t q by simp
  show "drop pos s = take (q - pos) (drop pos s) @ c # drop (Suc q) s"
    using index_of_split [OF i] q by (simp add: add.commute)
qed

lemma unescape_loop_spec:
  "unescape_loop val lp0 tmp = tmp @ unescape_spec (drop lp0 val)"
proof (induction val lp0 tmp rule: unescape_loop.induct)
  case (1 val lp0 tmp)
  show ?case
  proof (cases "lp0 < length val")
    case False
    then show ?thesis by (simp add: unescape_loop.simps [of val lp0 tmp])
  next
    case True
    show ?thesis
    proof (cases "str_find val bs lp0")
      case None
      have plain: "unescape_spec (drop lp0 val) = drop lp0 val"
        using unescape_spec_plain [OF str_find_None [OF None], of "[]"] by simp
      have "unescape_loop val lp0 tmp =
            unescape_loop val (length val) (tmp @ substr val lp0 (length val - lp0))"
        using True None by (simp add: unescape_loop.simps [of val lp0 tmp])
      also have "\<dots> = tmp @ drop lp0 val"
        using "1.IH"(1) [OF True None] by (simp add: substr_def)
      finally show ?thesis using plain by simp
    next
      case (Some lp1)
      note f = str_find_Some [OF Some]
      let ?pre = "take (lp1 - lp0) (drop lp0 val)"
      let ?esc = "(if lp1 < length val - 1 then
                    (if val ! (lp1 + 1) = bs then [bs]
                     else if val ! (lp1 + 1) = CHR ''n'' then [nl]
                     else [])
                  else [])"
      have step: "unescape_loop val lp0 tmp = tmp @ ?pre @ ?esc @ unescape_spec (drop (lp1 + 2) val)"
        using True Some "1.IH"(2) [OF True Some]
        by (simp add: substr_def unescape_loop.simps [of val lp0 tmp])
      have "unescape_spec (drop lp0 val) = ?pre @ unescape_spec (bs # drop (Suc lp1) val)"
        using unescape_spec_plain [OF f(4), of "bs # drop (Suc lp1) val"] f(5) by simp
      also have "unescape_spec (bs # drop (Suc lp1) val) = ?esc @ unescape_spec (drop (lp1 + 2) val)"
      proof (cases "lp1 < length val - 1")
        case False
        then have "drop (Suc lp1) val = []" "drop (lp1 + 2) val = []" using f(2) by simp_all
        then show ?thesis using False by simp
      next
        case lt: True
        then have "drop (Suc lp1) val = val ! (lp1 + 1) # drop (lp1 + 2) val"
          using Cons_nth_drop_Suc [of "Suc lp1" val] by simp
        then show ?thesis using lt by simp
      qed
      finally show ?thesis using step by simp
    qed
  qed
qed

text \<open>
  C3: for every metadata value, unescaping turns each backslash-backslash pair
  into one backslash and each backslash-n pair into one linefeed, drops a backslash
  together with any other character that follows it, and copies every other
  character unchanged and in order: the loop of the source computes exactly the
  left-to-right rule \<open>unescape_spec\<close>. The two values of the specification decode
  as it says: a, backslash, backslash, n, b gives a, backslash, n, b; and
  a, backslash, n, space, b gives a, linefeed, space, b.
\<close>

theorem unescape_follows_spec:
  "unescape val = unescape_spec val \<and>
   unescape [CHR ''a'', bs, bs, CHR ''n'', CHR ''b''] = [CHR ''a'', bs, CHR ''n'', CHR ''b''] \<and>
   unescape [CHR ''a'', bs, CHR ''n'', CHR '' '', CHR ''b''] = [CHR ''a'', nl, CHR '' '', CHR ''b'']"
  by (simp add: unescape_def unescape_loop_spec)

lemma trailing_backslashes_all:
  "\<forall>y\<in>set xs. y = bs \<Longrightarrow> trailing_backslashes xs = length xs"
proof -
  assume "\<forall>y\<in>set xs. y = bs"
  then have t: "takeWhile (\<lambda>c. c = bs) (rev xs) = rev xs"
    by (simp add: takeWhile_eq_all_conv)
  show ?thesis unfolding trailing_backslashes_def t by simp
qed

lemma trailing_backslashes_Cons_all:
  "\<forall>y\<in>set xs. y = bs \<Longrightarrow>
   trailing_backslashes (x # xs) = (if x = bs then Suc (length xs) else length xs)"
proof -
  assume a: "\<forall>y\<in>set xs. y = bs"
  then have "takeWhile (\<lambda>c. c = bs) (rev xs @ [x]) = rev xs @ takeWhile (\<lambda>c. c = bs) [x]"
    by (intro takeWhile_append2) simp
  then have "trailing_backslashes (x # xs) = length (rev xs @ takeWhile (\<lambda>c. c = bs) [x])"
    unfolding trailing_backslashes_def by simp
  then show ?thesis by simp
qed

lemma trailing_backslashes_Cons_other:
  "\<not> (\<forall>y\<in>set xs. y = bs) \<Longrightarrow> trailing_backslashes (x # xs) = trailing_backslashes xs"
proof -
  assume "\<not> (\<forall>y\<in>set xs. y = bs)"
  then obtain y where "y \<in> set (rev xs)" "\<not> y = bs" by auto
  then have "takeWhile (\<lambda>c. c = bs) (rev xs @ [x]) = takeWhile (\<lambda>c. c = bs) (rev xs)"
    by (intro takeWhile_append1) auto
  then show ?thesis unfolding trailing_backslashes_def by simp
qed

lemma trailing_backslashes_Cons_plain:
  "x \<noteq> bs \<Longrightarrow> trailing_backslashes (x # xs) = trailing_backslashes xs"
  by (cases "\<forall>y\<in>set xs. y = bs")
     (simp_all add: trailing_backslashes_Cons_all trailing_backslashes_Cons_other
        trailing_backslashes_all)

lemma trailing_backslashes_escape:
  "even (trailing_backslashes (bs # d # rest)) = even (trailing_backslashes rest)"
proof (cases "\<forall>y\<in>set rest. y = bs")
  case True
  show ?thesis
  proof (cases "d = bs")
    case d: True
    then have "\<forall>y\<in>set (d # rest). y = bs" using True by simp
    then show ?thesis
      using trailing_backslashes_Cons_all [of "d # rest" bs] trailing_backslashes_all [OF True]
      by simp
  next
    case False
    then have "\<not> (\<forall>y\<in>set (d # rest). y = bs)" by simp
    then have "trailing_backslashes (bs # d # rest) = trailing_backslashes (d # rest)"
      by (rule trailing_backslashes_Cons_other)
    then show ?thesis using False by (simp add: trailing_backslashes_Cons_plain)
  qed
next
  case False
  then have "\<not> (\<forall>y\<in>set (d # rest). y = bs)" by simp
  then have "trailing_backslashes (bs # d # rest) = trailing_backslashes (d # rest)"
    by (rule trailing_backslashes_Cons_other)
  then show ?thesis using False by (simp add: trailing_backslashes_Cons_other)
qed

lemma unescape_spec_snoc_bs:
  "unescape_spec (v @ [bs]) =
     (if even (trailing_backslashes v) then unescape_spec v else unescape_spec v @ [bs])"
proof (induction v rule: unescape_spec.induct)
  case 1
  then show ?case by (simp add: trailing_backslashes_def)
next
  case (2 c)
  then show ?case by (simp add: trailing_backslashes_def)
next
  case (3 c d rest)
  show ?case
  proof (cases "c = bs")
    case True
    then show ?thesis using 3 by (simp add: trailing_backslashes_escape)
  next
    case False
    have "unescape_spec ((c # d # rest) @ [bs]) = c # unescape_spec ((d # rest) @ [bs])"
      using False by simp
    then show ?thesis using False "3.IH"(4) [OF False]
      by (simp add: trailing_backslashes_Cons_plain)
  qed
qed


text \<open>
  C9 as stated fails where the final backslash completes a backslash-backslash
  escape: the value of two backslashes ends in a backslash with nothing after it,
  and decodes to one backslash, not to the decoding of its first character (the
  empty string).
\<close>

theorem unescape_trailing_backslash_counterexample:
  "unescape ([bs] @ [bs]) = [bs] \<and> unescape ([bs] @ [bs]) \<noteq> unescape [bs]"
  by (simp add: unescape_def unescape_loop_spec)

text \<open>
  C9, amended: the loop is total, so it terminates and never fails on any value.
  For a value that ends in a backslash, when that backslash is unpaired (an even
  number of backslashes stands directly before it) the loop drops it and the
  decoded value is the decoding of the preceding characters; otherwise the final
  backslash is the second half of a backslash-backslash escape and the decoded
  value is the decoding of the preceding characters followed by one backslash.
\<close>

theorem unescape_trailing_backslash:
  "unescape (v @ [bs]) =
     (if even (trailing_backslashes v) then unescape v else unescape v @ [bs])"
  by (simp add: unescape_def unescape_loop_spec unescape_spec_snoc_bs)

subsection \<open>Properties of the dictionary loop\<close>



lemma next_line_Some: "next_line pf (Some q) = q + length (terminator pf)"
  by (cases pf) simp_all

lemma take_eq_length: "take n xs = t \<Longrightarrow> length t = n \<Longrightarrow> n \<le> length xs"
  by (metis length_take min.cobounded2 min.commute)

lemma take_keeps_prefix: "take (length t) zs = t \<Longrightarrow> take (length t) (zs @ ys) = t"
proof -
  assume a: "take (length t) zs = t"
  then have "length t \<le> length zs" by (rule take_eq_length) simp
  then show ?thesis using a by simp
qed

lemma take_append_short: "n \<le> length zs \<Longrightarrow> take n (zs @ ys) = take n zs"
  by simp


lemma index_of_str_bound: "index_of_str t xs = Some i \<Longrightarrow> i + length t \<le> length xs"
proof (induction xs arbitrary: i)
  case Nil
  then show ?case by (simp split: if_splits)
next
  case (Cons x xs)
  show ?case
  proof (cases "take (length t) (x # xs) = t")
    case True
    then have "length t \<le> length (x # xs)" by (rule take_eq_length) simp
    then show ?thesis using Cons.prems True by simp
  next
    case False
    then obtain j where "index_of_str t xs = Some j" "i = Suc j" using Cons.prems by auto
    then show ?thesis using Cons.IH by simp
  qed
qed



lemma index_of_str_append: "index_of_str t xs = Some i \<Longrightarrow> index_of_str t (xs @ ys) = Some i"
proof (induction xs arbitrary: i)
  case Nil
  then show ?case by (cases ys) (simp_all split: if_splits)
next
  case (Cons x xs)
  show ?case
  proof (cases "take (length t) (x # xs) = t")
    case True
    have "take (length t) ((x # xs) @ ys) = t" using True by (rule take_keeps_prefix)
    then show ?thesis using Cons.prems True by simp
  next
    case False
    then obtain j where j: "index_of_str t xs = Some j" "i = Suc j" using Cons.prems by auto
    have "length t \<le> length (x # xs)" using index_of_str_bound [OF j(1)] by simp
    then have "take (length t) ((x # xs) @ ys) = take (length t) (x # xs)"
      by (rule take_append_short)
    then show ?thesis using False j Cons.IH by simp
  qed
qed



lemma index_of_str_here: "index_of_str t (t @ zs) = Some 0"
proof (cases "t @ zs")
  case Nil
  then show ?thesis by simp
next
  case (Cons x xs)
  have "take (length t) (t @ zs) = t" by simp
  then show ?thesis unfolding Cons by simp
qed


lemma first_at_empty: "first_at (terminator pf) []"
  using index_of_str_here [of "terminator pf" "[]"] by (simp add: first_at_def)

lemma str_find_str_line:
  assumes "first_at t l"
  shows "str_find_str (pre @ l @ t @ rest) t (length pre) = Some (length pre + length l)"
proof -
  have "index_of_str t ((l @ t) @ rest) = Some (length l)"
    using assms unfolding first_at_def by (rule index_of_str_append)
  then show ?thesis by (simp add: str_find_str_def)
qed

lemma line_at_line:
  "line_at (pre @ l @ rest) (length pre) (Some (length pre + length l)) = l"
  by (simp add: line_at_def substr_def)


lemma parse_step_key:
  assumes "key \<noteq> []" and "first_at (terminator pf) key" and "first_at (terminator pf) v"
  shows "parse_step pf (pre @ key @ terminator pf @ v @ terminator pf @ rest) (length pre) dict =
           (length (pre @ key @ terminator pf @ v @ terminator pf),
            if v = empty_value_line pf then dict
            else if HasKey dict key then dict
            else EncapsulateMetaData dict key (unescape v))"
proof -
  let ?t = "terminator pf"
  let ?s = "pre @ key @ ?t @ v @ ?t @ rest"
  let ?p = "length (pre @ key @ ?t)"
  have f1: "str_find_str ?s ?t (length pre) = Some (length pre + length key)"
    using str_find_str_line [OF assms(2), of pre "v @ ?t @ rest"] by simp
  have l1: "line_at ?s (length pre) (Some (length pre + length key)) = key"
    using line_at_line [of pre key "?t @ v @ ?t @ rest"] by simp
  have n1: "next_line pf (Some (length pre + length key)) = ?p"
    by (simp add: next_line_Some)
  have s2: "?s = (pre @ key @ ?t) @ v @ ?t @ rest" by simp
  have f2: "str_find_str ?s ?t ?p = Some (?p + length v)"
    unfolding s2 by (rule str_find_str_line [OF assms(3)])
  have l2: "line_at ?s ?p (Some (?p + length v)) = v"
    unfolding s2 by (rule line_at_line)
  have n2: "next_line pf (Some (?p + length v)) = length (pre @ key @ ?t @ v @ ?t)"
    by (simp add: next_line_Some)
  show ?thesis
    unfolding parse_step_def Let_def f1 l1 n1 f2 l2 n2
    using assms(1) by simp
qed

lemma parse_loop_step:
  "p0 < length s \<Longrightarrow> parse_step pf s p0 d = (p0', d') \<Longrightarrow>
   parse_loop pf (Suc f) s p0 d = parse_loop pf f s p0' d'"
  by simp






lemmas frame_eval = example_frame_def empty_value_frame_def parse_step_def Let_def
  str_find_str_def line_at_def substr_def HasKey_def EncapsulateMetaData_def
  unescape_def unescape_loop_spec eval_nat_numeral












text \<open>
  A key line followed by an empty line. In the POSIX build the pass leaves the
  dictionary as it was and the loop goes on at the line after the empty one.
\<close>

lemma first_at_POSIX: "nl \<notin> set l \<Longrightarrow> first_at [nl] l"
  unfolding first_at_def by (induction l) auto

lemma key_before_empty_line_POSIX:
  assumes "key \<noteq> []" and "nl \<notin> set key"
  shows "parse_step POSIX (pre @ key @ nl # nl # rest) (length pre) dict =
           (length (pre @ key @ [nl, nl]), dict) \<and>
         parse_loop POSIX (Suc fuel) (pre @ key @ nl # nl # rest) (length pre) dict =
           parse_loop POSIX fuel (pre @ key @ nl # nl # rest) (length (pre @ key @ [nl, nl])) dict"
proof -
  have k: "first_at (terminator POSIX) key" using first_at_POSIX [OF assms(2)] by simp
  have e: "first_at (terminator POSIX) []" by (rule first_at_empty)
  have st: "parse_step POSIX (pre @ key @ nl # nl # rest) (length pre) dict =
              (length (pre @ key @ [nl, nl]), dict)"
    using parse_step_key [OF assms(1) k e, of pre rest dict] by simp
  have "parse_loop POSIX (Suc fuel) (pre @ key @ nl # nl # rest) (length pre) dict =
        parse_loop POSIX fuel (pre @ key @ nl # nl # rest) (length (pre @ key @ [nl, nl])) dict"
    by (rule parse_loop_step [OF _ st]) simp
  then show ?thesis using st by simp
qed

text \<open>
  In the WIN32 build the value line is compared with a lone carriage return, which
  the empty line between two line ends never is: the key is stored with the empty
  string as its value (unless it is already there).
\<close>

lemma key_before_empty_line_WIN32:
  assumes "key \<noteq> []" and "first_at [cr, nl] key"
  shows "parse_step WIN32 (pre @ key @ [cr, nl, cr, nl] @ rest) (length pre) dict =
           (length (pre @ key @ [cr, nl, cr, nl]),
            if HasKey dict key then dict else EncapsulateMetaData dict key [])"
proof -
  have k: "first_at (terminator WIN32) key" using assms(2) by simp
  have e: "first_at (terminator WIN32) []" by (rule first_at_empty)
  have u: "unescape [] = []" by (simp add: unescape_def unescape_loop_spec)
  show ?thesis
    using parse_step_key [OF assms(1) k e, of pre rest dict] by (simp add: u)
qed

text \<open>
  C10: a key line immediately followed by an empty line is to be discarded, with
  no dictionary entry made for it. In the WIN32 build the frame with the key A, an
  empty line, the key B and its value 1 leaves A in the dictionary with an empty
  value; the POSIX build discards A.
\<close>

theorem empty_value_line_stored_on_WIN32:
  "reply_loop WIN32 [Pipe_STDOUT (empty_value_frame WIN32)] [] [] =
     Inr (empty_value_frame WIN32) \<and>
   parse_loop WIN32 3 (empty_value_frame WIN32) 0 Map.empty =
     Some [''A'' \<mapsto> [], ''B'' \<mapsto> ''1''] \<and>
   parse_loop POSIX 3 (empty_value_frame POSIX) 0 Map.empty = Some [''B'' \<mapsto> ''1'']"
  by (simp add: frame_eval)

subsection \<open>Properties of the process supervisor\<close>

lemma DestroyJavaProcess_no_process: "m_Process s = None \<Longrightarrow> DestroyJavaProcess s = s"
  by (simp add: DestroyJavaProcess_def)

lemma DestroyJavaProcess_process:
  "m_Process s = Some st \<Longrightarrow>
   m_Process (DestroyJavaProcess s) = None \<and> \<not> m_Pipe1_open (DestroyJavaProcess s) \<and>
   calls (DestroyJavaProcess s) =
     calls s @ (if st = State_Executing then [Call_Kill, Call_WaitForExit] else []) @
     [Call_Delete, Call_close]"
  by (simp add: DestroyJavaProcess_def Let_def)

lemma m_Process_DestroyJavaProcess: "m_Process (DestroyJavaProcess s) = None"
  by (cases "m_Process s") (simp_all add: DestroyJavaProcess_def Let_def)

lemma DestroyJavaProcess_twice: "DestroyJavaProcess (DestroyJavaProcess s) = DestroyJavaProcess s"
  by (rule DestroyJavaProcess_no_process [OF m_Process_DestroyJavaProcess])

lemma m_Process_CreateJavaProcess:
  "m_Process (snd (CreateJavaProcess env s)) \<noteq> None"
  by (simp add: CreateJavaProcess_def Let_def)

lemma reachable_pipe: "reachable s \<Longrightarrow> m_Process s = None \<Longrightarrow> \<not> m_Pipe1_open s"
proof (induction rule: reachable.induct)
  case reachable_constructed
  then show ?case by (simp add: constructed_def)
next
  case (reachable_Create s env)
  then show ?case using m_Process_CreateJavaProcess [of env s] by simp
next
  case (reachable_Destroy s)
  show ?case
  proof (cases "m_Process s")
    case None
    then show ?thesis using reachable_Destroy.IH by (simp add: DestroyJavaProcess_no_process)
  next
    case (Some st)
    then show ?thesis using DestroyJavaProcess_process [OF Some] by simp
  qed
next
  case (reachable_world s st st')
  then show ?case by simp
qed

text \<open>
  In the POSIX build: when a process handle exists, DestroyJavaProcess kills and
  awaits the process if it is executing and in either case deletes the handle and
  closes the pipe's write end; when no process exists it returns at once and
  changes nothing. In every state an instance can be in, after the call there is
  no process handle and the write end is not open, and a second call leaves the
  state as the first one left it.
\<close>

lemma DestroyJavaProcess_releases_idempotent:
  assumes "reachable s"
  shows "m_Process (DestroyJavaProcess s) = None \<and>
         \<not> m_Pipe1_open (DestroyJavaProcess s) \<and>
         (\<forall>st. m_Process s = Some st \<longrightarrow>
            calls (DestroyJavaProcess s) =
              calls s @ (if st = State_Executing then [Call_Kill, Call_WaitForExit] else []) @
              [Call_Delete, Call_close]) \<and>
         (m_Process s = None \<longrightarrow> DestroyJavaProcess s = s) \<and>
         DestroyJavaProcess (DestroyJavaProcess s) = DestroyJavaProcess s"
  using reachable_pipe [OF reachable_Destroy [OF assms] m_Process_DestroyJavaProcess]
    DestroyJavaProcess_process [of s]
  by (simp add: m_Process_DestroyJavaProcess DestroyJavaProcess_twice
      DestroyJavaProcess_no_process)

lemma DestroyJavaProcess_releases_idempotent_POSIX_example:
  "reachable constructed \<and> reachable (snd (CreateJavaProcess running constructed)) \<and>
   DestroyJavaProcess constructed = constructed \<and>
   \<not> m_Pipe1_open (DestroyJavaProcess constructed) \<and>
   m_Pipe1_open (snd (CreateJavaProcess running constructed)) \<and>
   \<not> m_Pipe1_open (DestroyJavaProcess (snd (CreateJavaProcess running constructed))) \<and>
   m_Process (DestroyJavaProcess (snd (CreateJavaProcess running constructed))) = None \<and>
   calls (DestroyJavaProcess (snd (CreateJavaProcess running constructed))) =
     [Call_pipe, Call_New, Call_SetCommand, Call_SetPipeNative, Call_Execute,
      Call_Kill, Call_WaitForExit, Call_Delete, Call_close]"
  using reachable_constructed reachable_Create [OF reachable_constructed, of running] DestroyJavaProcess_releases_idempotent [OF reachable_constructed]
    DestroyJavaProcess_releases_idempotent
      [OF reachable_Create [OF reachable_constructed, of running]]
  by (simp add: constructed_def CreateJavaProcess_def running_def Let_def)

text \<open>
  C7: DestroyJavaProcess is to release the pipe on every call, also when no process
  exists. In the WIN32 build, when \<^verbatim>\<open>SetHandleInformation\<close> fails on a fresh
  instance, CreateJavaProcess throws with the pipe made and no process handle; the
  DestroyJavaProcess that follows returns at its first test, changes nothing and
  leaves the pipe open.
\<close>

theorem DestroyJavaProcess_WIN32_pipe_left_open:
  "fst (CreateJavaProcess_WIN32 True False running constructed) = Some SetInheritedFailed \<and>
   m_Process (snd (CreateJavaProcess_WIN32 True False running constructed)) = None \<and>
   m_Pipe1_open (snd (CreateJavaProcess_WIN32 True False running constructed)) \<and>
   DestroyJavaProcess (snd (CreateJavaProcess_WIN32 True False running constructed)) =
     snd (CreateJavaProcess_WIN32 True False running constructed) \<and>
   m_Pipe1_open
     (DestroyJavaProcess (snd (CreateJavaProcess_WIN32 True False running constructed)))"
  by (simp add: CreateJavaProcess_WIN32_def DestroyJavaProcess_def constructed_def Let_def)

text \<open>
  C6 as stated fails: when the new process is found exited, CreateJavaProcess throws
  with the handle still in \<^verbatim>\<open>m_Process\<close> and the pipe still open; it has called
  neither \<^verbatim>\<open>itksysProcess_Delete\<close> nor \<^verbatim>\<open>close\<close>.
\<close>

theorem CreateJavaProcess_failure_counterexample:
  "fst (CreateJavaProcess exited constructed) = Some (ProcessExited 1) \<and>
   m_Process (snd (CreateJavaProcess exited constructed)) = Some State_Exited \<and>
   m_Pipe1_open (snd (CreateJavaProcess exited constructed)) \<and>
   calls (snd (CreateJavaProcess exited constructed)) =
     [Call_pipe, Call_New, Call_SetCommand, Call_SetPipeNative, Call_Execute]"
  by (simp add: CreateJavaProcess_def exited_def constructed_def state_error_def Let_def)

text \<open>
  C6, amended: for every state of the new process other than executing,
  CreateJavaProcess fails with an error and returns with the handle of that
  (not executing) process still held and the pipe's write end still open. The
  teardown comes later: the next CreateJavaProcess call deletes the handle and
  closes the pipe before it spawns again, and DestroyJavaProcess does so whenever
  it is called.
\<close>

theorem CreateJavaProcess_failure_teardown_deferred:
  assumes "spawn_state env \<noteq> State_Executing" and "m_Process s \<noteq> Some State_Executing"
  shows "fst (CreateJavaProcess env s) \<noteq> None \<and>
         m_Process (snd (CreateJavaProcess env s)) = Some (spawn_state env) \<and>
         m_Pipe1_open (snd (CreateJavaProcess env s)) \<and>
         (\<forall>env'. calls (snd (CreateJavaProcess env' (snd (CreateJavaProcess env s)))) =
            calls (snd (CreateJavaProcess env s)) @
            [Call_Delete, Call_close,
             Call_pipe, Call_New, Call_SetCommand, Call_SetPipeNative, Call_Execute]) \<and>
         m_Process (DestroyJavaProcess (snd (CreateJavaProcess env s))) = None \<and>
         \<not> m_Pipe1_open (DestroyJavaProcess (snd (CreateJavaProcess env s)))"
proof -
  let ?s' = "snd (CreateJavaProcess env s)"
  have e: "fst (CreateJavaProcess env s) \<noteq> None"
    using assms by (cases "spawn_state env") (simp_all add: CreateJavaProcess_def state_error_def Let_def)
  have p: "m_Process ?s' = Some (spawn_state env)" and o: "m_Pipe1_open ?s'"
    using assms(2) by (simp_all add: CreateJavaProcess_def Let_def)
  have n: "calls (snd (CreateJavaProcess env' ?s')) =
            calls ?s' @ [Call_Delete, Call_close,
             Call_pipe, Call_New, Call_SetCommand, Call_SetPipeNative, Call_Execute]" for env'
    using DestroyJavaProcess_process [OF p] p assms(1)
    by (simp add: CreateJavaProcess_def [of env' ?s'] Let_def)
  show ?thesis
    using e p o n DestroyJavaProcess_process [OF p] by simp
qed

theorem CreateJavaProcess_failure_teardown_deferred_witness:
  "fst (CreateJavaProcess exited constructed) \<noteq> None \<and>
   calls (snd (CreateJavaProcess running (snd (CreateJavaProcess exited constructed)))) =
     [Call_pipe, Call_New, Call_SetCommand, Call_SetPipeNative, Call_Execute,
      Call_Delete, Call_close,
      Call_pipe, Call_New, Call_SetCommand, Call_SetPipeNative, Call_Execute]"
proof -
  have a: "spawn_state exited \<noteq> State_Executing" by (simp add: exited_def)
  have b: "m_Process constructed \<noteq> Some State_Executing" by (simp add: constructed_def)
  have c: "calls (snd (CreateJavaProcess exited constructed)) =
     [Call_pipe, Call_New, Call_SetCommand, Call_SetPipeNative, Call_Execute]"
    by (simp add: CreateJavaProcess_def exited_def constructed_def Let_def)
  show ?thesis
    using CreateJavaProcess_failure_teardown_deferred [OF a b] c by simp
qed

text \<open>
  The same holds in the WIN32 build once the pipe has been made: a new process that
  is not executing leaves its handle and the pipe behind, and the next call tears
  them down before it spawns again.
\<close>

lemma CreateJavaProcess_WIN32_failure_teardown_deferred:
  assumes "spawn_state env \<noteq> State_Executing" and "m_Process s \<noteq> Some State_Executing"
  shows "fst (CreateJavaProcess_WIN32 True True env s) \<noteq> None \<and>
         m_Process (snd (CreateJavaProcess_WIN32 True True env s)) = Some (spawn_state env) \<and>
         m_Pipe1_open (snd (CreateJavaProcess_WIN32 True True env s)) \<and>
         (\<forall>env'. calls (snd (CreateJavaProcess_WIN32 True True env'
                     (snd (CreateJavaProcess_WIN32 True True env s)))) =
            calls (snd (CreateJavaProcess_WIN32 True True env s)) @
            [Call_Delete, Call_close, Call_pipe, Call_SetHandleInformation,
             Call_New, Call_SetCommand, Call_SetPipeNative, Call_Execute])"
proof -
  let ?s' = "snd (CreateJavaProcess_WIN32 True True env s)"
  have e: "fst (CreateJavaProcess_WIN32 True True env s) \<noteq> None"
    using assms
    by (cases "spawn_state env")
       (simp_all add: CreateJavaProcess_WIN32_def state_error_def Let_def)
  have p: "m_Process ?s' = Some (spawn_state env)" and o: "m_Pipe1_open ?s'"
    using assms(2) by (simp_all add: CreateJavaProcess_WIN32_def Let_def)
  have n: "calls (snd (CreateJavaProcess_WIN32 True True env' ?s')) =
            calls ?s' @ [Call_Delete, Call_close, Call_pipe, Call_SetHandleInformation,
             Call_New, Call_SetCommand, Call_SetPipeNative, Call_Execute]" for env'
    using DestroyJavaProcess_process [OF p] p assms(1)
    by (simp add: CreateJavaProcess_WIN32_def [of True True env' ?s'] Let_def)
  show ?thesis using e p o n by simp
qed

subsection \<open>Properties of the read loop\<close>

lemma Read_loop_complete:
  assumes "\<forall>e\<in>set evs. is_data e"
      and "pos + length (stdout_bytes evs) = byteCount"
      and "byteCount \<le> length data"
  shows "Read_loop byteCount evs data pos errorMessage =
           Inr (take pos data @ stdout_bytes evs @ drop byteCount data)"
  using assms
proof (induction evs arbitrary: data pos errorMessage)
  case Nil
  then show ?case by simp
next
  case (Cons e evs)
  show ?case
  proof (cases e)
    case (Pipe_STDOUT chunk)
    have len: "pos + length chunk + length (stdout_bytes evs) = byteCount"
      using Cons.prems(2) Pipe_STDOUT by simp
    show ?thesis
    proof (cases "pos < byteCount")
      case True
      have fit: "pos + length chunk \<le> length data" using len Cons.prems(3) by simp
      have l': "byteCount \<le> length (memcpy data pos chunk)"
        using fit Cons.prems(3) by (simp add: memcpy_def)
      have d: "\<forall>e\<in>set evs. is_data e" using Cons.prems(1) by simp
      have t: "take (pos + length chunk) (memcpy data pos chunk) = take pos data @ chunk"
        using fit by (simp add: memcpy_def)
      have "drop byteCount (memcpy data pos chunk) =
            drop (byteCount - (pos + length chunk)) (drop (pos + length chunk) data)"
        using fit len by (simp add: memcpy_def)
      also have "\<dots> = drop byteCount data" using len by simp
      finally have dr: "drop byteCount (memcpy data pos chunk) = drop byteCount data" .
      have "Read_loop byteCount (e # evs) data pos errorMessage =
            Read_loop byteCount evs (memcpy data pos chunk) (pos + length chunk) errorMessage"
        using True fit Pipe_STDOUT by simp
      also have "\<dots> = Inr (take (pos + length chunk) (memcpy data pos chunk) @
                         stdout_bytes evs @ drop byteCount (memcpy data pos chunk))"
        by (rule Cons.IH [OF d len l'])
      finally show ?thesis using Pipe_STDOUT by (simp add: t dr)
    next
      case False
      then have "length chunk = 0 \<and> length (stdout_bytes evs) = 0 \<and> pos = byteCount"
        using len by arith
      then show ?thesis using Pipe_STDOUT by simp
    qed
  next
    case (Pipe_STDERR msg)
    have d: "\<forall>e\<in>set evs. is_data e" using Cons.prems(1) by simp
    have len: "pos + length (stdout_bytes evs) = byteCount"
      using Cons.prems(2) Pipe_STDERR by simp
    show ?thesis
    proof (cases "pos < byteCount")
      case True
      then show ?thesis
        using Cons.IH [OF d len Cons.prems(3), of "errorMessage @ msg"] Pipe_STDERR by simp
    next
      case False
      then have "length (stdout_bytes evs) = 0 \<and> pos = byteCount" using len by arith
      then show ?thesis using Pipe_STDERR by simp
    qed
  next
    case Pipe_None
    then show ?thesis using Cons.prems(1) by simp
  next
    case Pipe_Timeout
    then show ?thesis using Cons.prems(1) by simp
  qed
qed

text \<open>
  C8: when the events of the worker are data only and the chunks on its standard
  output add up to exactly the declared byte count (pixel size times number of
  pixels), however they are cut and whatever diagnostics come in between, the read
  loop returns without an error, and the destination buffer then begins with
  exactly the delivered bytes in their order (a buffer of the declared size holds
  them and nothing else). The loop is a total function on the list of events, so
  it ends.
\<close>

theorem Read_loop_fills_buffer:
  assumes "\<forall>e\<in>set evs. is_data e"
      and "length (stdout_bytes evs) = Read_byteCount pixelSize sizes"
      and "Read_byteCount pixelSize sizes \<le> length data"
  shows "Read_loop (Read_byteCount pixelSize sizes) evs data 0 [] =
           Inr (stdout_bytes evs @ drop (Read_byteCount pixelSize sizes) data)"
  using Read_loop_complete [of evs 0 "Read_byteCount pixelSize sizes" data "[]"] assms
  by simp

theorem Read_loop_fills_buffer_witness:
  "Read_byteCount 2 [2] = 4 \<and>
   Read_loop (Read_byteCount 2 [2])
     [Pipe_STDOUT ''a'', Pipe_STDERR ''warn'', Pipe_STDOUT ''bc'', Pipe_STDOUT ''d'']
     ''0000'' 0 [] = Inr ''abcd'' \<and>
   Read_loop (Read_byteCount 2 [2]) [Pipe_STDOUT ''abcd''] ''0000'' 0 [] =
     Inr ''abcd''"
proof -
  let ?evs = "[Pipe_STDOUT ''a'', Pipe_STDERR ''warn'', Pipe_STDOUT ''bc'', Pipe_STDOUT ''d'']"
  let ?one = "[Pipe_STDOUT ''abcd'']"
  have b: "Read_byteCount 2 [2] = 4"
    by (simp add: Read_byteCount_def GetNumberOfPixels_def)
  have d: "\<forall>e\<in>set ?evs. is_data e" "\<forall>e\<in>set ?one. is_data e" by simp_all
  have l: "length (stdout_bytes ?evs) = Read_byteCount 2 [2]"
          "length (stdout_bytes ?one) = Read_byteCount 2 [2]"
          "Read_byteCount 2 [2] \<le> length ''0000''"
    by (simp_all add: b)
  show ?thesis
    using Read_loop_fills_buffer [OF d(1) l(1) l(3)] Read_loop_fills_buffer [OF d(2) l(2) l(3)] b
    by (simp del: Read_loop.simps)
qed

subsection \<open>Properties of the conversions and of the write command\<close>

lemmas conv_defs = valueOfString_bool_def extract_bool_def extract_integer_def isspace_def
  isdigit_def extract_boolalpha_def stored_def failed_def remaining_def Let_def
  valueOfString_int_def valueOfString_short_def valueOfString_integer_def
  digits_value_def digit_value_def

text \<open>
  C2 as stated fails: on the input \<^verbatim>\<open>maybe\<close> the numeric attempt fails, the attempt
  with the names \<^verbatim>\<open>true\<close> and \<^verbatim>\<open>false\<close> fails too, and the function returns false
  and no error. The general template does throw on the same input.
\<close>

theorem valueOfString_bool_counterexample:
  "failed (extract_bool ''maybe'') \<and>
   failed (extract_boolalpha (remaining (extract_bool ''maybe''))) \<and>
   valueOfString_bool ''maybe'' = Inr False \<and>
   valueOfString_int ''maybe'' = Inl (ConversionError ''maybe'')"
  by (simp add: conv_defs)

text \<open>
  C2, amended: for every input string, parsing it as a boolean first attempts the
  numeric 0/1 and returns its value when it succeeds; when it fails, the parse
  falls back to the literal tokens true/false on what is left and returns that
  value when it succeeds; and it never fails with a conversion error: when neither
  attempt succeeds it returns the value left in the result variable, which is
  false unless the numeric attempt had read a number other than 0 and 1.
\<close>

theorem valueOfString_bool_never_fails:
  "(\<exists>b. valueOfString_bool s = Inr b) \<and>
   (\<not> failed (extract_bool s) \<longrightarrow>
      valueOfString_bool s = Inr (stored False (extract_bool s))) \<and>
   (failed (extract_bool s) \<and> \<not> failed (extract_boolalpha (remaining (extract_bool s))) \<longrightarrow>
      valueOfString_bool s =
        Inr (stored False (extract_boolalpha (remaining (extract_bool s))))) \<and>
   (failed (extract_bool s) \<and> failed (extract_boolalpha (remaining (extract_bool s))) \<and>
    \<not> stored False (extract_bool s) \<longrightarrow>
      valueOfString_bool s = Inr False)"
proof -
  let ?r1 = "extract_bool s"
  let ?r2 = "extract_boolalpha (remaining ?r1)"
  have a: "\<exists>b. valueOfString_bool s = Inr b"
    by (simp add: valueOfString_bool_def Let_def)
  have b: "\<not> failed ?r1 \<longrightarrow> valueOfString_bool s = Inr (stored False ?r1)"
    by (simp add: valueOfString_bool_def Let_def)
  have ok2: "\<not> failed ?r2 \<Longrightarrow> fst (snd ?r2) \<noteq> None"
    by (auto simp: extract_boolalpha_def failed_def Let_def split: if_splits)
  have c: "failed ?r1 \<and> \<not> failed ?r2 \<longrightarrow> valueOfString_bool s = Inr (stored False ?r2)"
    using ok2 by (auto simp: valueOfString_bool_def Let_def stored_def split: option.splits)
  have f2: "failed ?r2 \<Longrightarrow> fst (snd ?r2) = None \<or> fst (snd ?r2) = Some False"
    by (auto simp: extract_boolalpha_def failed_def Let_def split: if_splits)
  have d: "failed ?r1 \<and> failed ?r2 \<and> \<not> stored False ?r1 \<longrightarrow> valueOfString_bool s = Inr False"
    using f2 by (auto simp: valueOfString_bool_def Let_def stored_def split: option.splits)
  show ?thesis using a b c d by blast
qed

theorem valueOfString_bool_never_fails_witness:
  "valueOfString_bool ''1'' = Inr True \<and> valueOfString_bool ''0'' = Inr False \<and>
   valueOfString_bool ''true'' = Inr True \<and> valueOfString_bool ''false'' = Inr False \<and>
   valueOfString_bool [] = Inr False \<and> valueOfString_bool ''maybe'' = Inr False"
proof -
  have n: "\<not> failed (extract_bool ''1'')" "stored False (extract_bool ''1'')"
          "\<not> failed (extract_bool ''0'')" "\<not> stored False (extract_bool ''0'')"
    by (simp_all add: conv_defs)
  have t: "failed (extract_bool ''true'')"
          "\<not> failed (extract_boolalpha (remaining (extract_bool ''true'')))"
          "stored False (extract_boolalpha (remaining (extract_bool ''true'')))"
    by (simp_all add: conv_defs)
  have f: "failed (extract_bool ''false'')"
          "\<not> failed (extract_boolalpha (remaining (extract_bool ''false'')))"
          "\<not> stored False (extract_boolalpha (remaining (extract_bool ''false'')))"
    by (simp_all add: conv_defs)
  have e: "failed (extract_bool [])" "failed (extract_boolalpha (remaining (extract_bool [])))"
          "\<not> stored False (extract_bool [])"
    by (simp_all add: conv_defs)
  have m: "failed (extract_bool ''maybe'')"
          "failed (extract_boolalpha (remaining (extract_bool ''maybe'')))"
          "\<not> stored False (extract_bool ''maybe'')"
    by (simp_all add: conv_defs)
  show ?thesis
    using valueOfString_bool_never_fails [of "''1''"] valueOfString_bool_never_fails [of "''0''"]
      valueOfString_bool_never_fails [of "''true''"] valueOfString_bool_never_fails [of "''false''"]
      valueOfString_bool_never_fails [of "[]"] valueOfString_bool_never_fails [of "''maybe''"]
      n t f e m
    by simp
qed

text \<open>
  What the loop computes: the product, over the axes Z, C and T that the region
  has, of size minus start index, in 32-bit arithmetic.
\<close>

lemma region_fields_numPlanes:
  "snd (region_fields region dims (command, numPlanes)) =
     numPlanes * prod_list (map (\<lambda>dim. word_of_int (int (Size region ! dim)) -
                                        word_of_int (Index region ! dim))
       (filter (\<lambda>dim. dim < ImageDimension region \<and>
                       (dim = cIndex \<or> dim = zIndex \<or> dim = tIndex)) dims))"
  by (induction dims arbitrary: command numPlanes) (simp_all add: Let_def)

text \<open>
  C1: the number of planes is to be the product of the region's extents on the axes
  after Y, whatever the start indices. The loop multiplies size minus index
  instead: for the region of 4 by 4 by 3 pixels that starts at plane 1 it counts
  2 planes, where the extents give 3.
\<close>

theorem Write_numPlanes_depends_on_index:
  "Write_numPlanes offset_region = 2 \<and> extent_product offset_region = 3"
  by (simp add: Write_numPlanes_def offset_region_def extent_product_def
      zIndex_def cIndex_def tIndex_def)

text \<open>
  At a bit depth other than 8 every entry of the lookup table ends with two tabs.
\<close>

lemma lut_entry_double_tab:
  "LUTBits \<noteq> 8 \<Longrightarrow> lut_entry dict LUTBits i = Inr entry \<Longrightarrow> \<exists>x. entry = x @ [tab, tab]"
  by (auto simp: lut_entry_def lut_value_def split: sum.splits)

text \<open>
  C5: each entry of the lookup table is to be exactly three tab-separated values at
  every bit depth. At depth 16 the entry 10, 20, 30 is followed by a second tab,
  so the command has an empty fourth field after it; at depth 8 it has the three
  values only.
\<close>

theorem Write_lut_extra_tab:
  "Write_lut (lut_dict ''16'') [] =
     Inr (''1'' @ [tab] @ ''16'' @ [tab] @ ''1'' @ [tab] @
          ''10'' @ [tab] @ ''20'' @ [tab] @ ''30'' @ [tab] @ [tab] @ [nl]) \<and>
   Write_lut (lut_dict ''8'') [] =
     Inr (''1'' @ [tab] @ ''8'' @ [tab] @ ''1'' @ [tab] @
          ''10'' @ [tab] @ ''20'' @ [tab] @ ''30'' @ [tab] @ [nl]) \<and>
   split_tabs (projr (Write_lut (lut_dict ''16'') [])) =
     [''1'', ''16'', ''1'', ''10'', ''20'', ''30'', [], [nl]] \<and>
   split_tabs (projr (Write_lut (lut_dict ''8'') [])) =
     [''1'', ''8'', ''1'', ''10'', ''20'', ''30'', [nl]]"
  by (simp add: Write_lut_def lut_dict_def GetTypedMetaData_bool_def GetTypedMetaData_int_def
      GetTypedMetaData_short_def ExposeMetaData_def conv_defs lut_entry_def lut_value_def
      toString_def show_nat.simps digit_char_def upt_rec)

end
